theory Spec2Isabelle
  imports Main "HOL-Library.Stream"
begin

section \<open>Go library functions used by package agi\<close>

text \<open>
  Go strings are byte sequences; they are modelled as \<^typ>\<open>string\<close>, a list of 8-bit
  characters.  The functions of this section are the parts of the Go standard library
  (packages \<^verbatim>\<open>strings\<close>, \<^verbatim>\<open>strconv\<close>, \<^verbatim>\<open>regexp\<close>) and of
  \<^verbatim>\<open>github.com/pkg/errors\<close> that \<^verbatim>\<open>agi.go\<close> calls.
\<close>

subsection \<open>Error values\<close>

text \<open>
  A Go \<^verbatim>\<open>error\<close> is modelled as \<^typ>\<open>'a option\<close> over the datatype below:
  \<^term>\<open>None\<close> is \<^verbatim>\<open>nil\<close>.  \<open>Errorf\<close> carries the formatted message of
  \<^verbatim>\<open>fmt.Errorf\<close>, \<open>Wrapped\<close> is the result of \<^verbatim>\<open>errors.Wrap\<close> on a non-nil
  error, \<open>NumError\<close> is \<^verbatim>\<open>*strconv.NumError\<close> with its fields Func, Num and Err,
  and \<open>IOError\<close> stands for any error returned by the transport.
\<close>

datatype go_error =
    ErrHangup
  | Errorf string
  | Wrapped go_error string
  | ErrSyntax
  | ErrRange
  | NumError string string go_error
  | IOError string

type_synonym error = "go_error option"

fun Wrap :: "error \<Rightarrow> string \<Rightarrow> error" where
  "Wrap None message = None"
| "Wrap (Some err) message = Some (Wrapped err message)"

subsection \<open>Package strings\<close>

definition HasPrefix :: "string \<Rightarrow> string \<Rightarrow> bool" where
  "HasPrefix s prefix \<longleftrightarrow> length s \<ge> length prefix \<and> take (length prefix) s = prefix"

definition HasSuffix :: "string \<Rightarrow> string \<Rightarrow> bool" where
  "HasSuffix s suffix \<longleftrightarrow>
     length s \<ge> length suffix \<and> drop (length s - length suffix) s = suffix"

definition TrimPrefix :: "string \<Rightarrow> string \<Rightarrow> string" where
  "TrimPrefix s prefix = (if HasPrefix s prefix then drop (length prefix) s else s)"

definition TrimSuffix :: "string \<Rightarrow> string \<Rightarrow> string" where
  "TrimSuffix s suffix = (if HasSuffix s suffix then take (length s - length suffix) s else s)"

fun Join :: "string list \<Rightarrow> string \<Rightarrow> string" where
  "Join [] sep = []"
| "Join [e] sep = e"
| "Join (e # e' # elems) sep = e @ sep @ Join (e' # elems) sep"

text \<open>
  \<^verbatim>\<open>strings.SplitN(s, sep, n)\<close> for a one-byte separator and \<open>n > 0\<close>: at most \<open>n\<close>
  substrings, the last one being the unsplit remainder.  \<^verbatim>\<open>strings.Split(s, sep)\<close> is
  the same without a bound on the number of substrings.
\<close>

fun Split :: "string \<Rightarrow> char \<Rightarrow> string list" where
  "Split [] sep = [[]]"
| "Split (c # cs) sep =
     (if c = sep then [] # Split cs sep
      else (case Split cs sep of t # ts \<Rightarrow> (c # t) # ts | [] \<Rightarrow> [[c]]))"

fun SplitN :: "string \<Rightarrow> char \<Rightarrow> nat \<Rightarrow> string list" where
  "SplitN s sep 0 = []"
| "SplitN s sep (Suc 0) = [s]"
| "SplitN [] sep (Suc (Suc n)) = [[]]"
| "SplitN (c # cs) sep (Suc (Suc n)) =
     (if c = sep then [] # SplitN cs sep (Suc n)
      else (case SplitN cs sep (Suc (Suc n)) of t # ts \<Rightarrow> (c # t) # ts | [] \<Rightarrow> [[c]]))"

text \<open>
  \<^verbatim>\<open>strings.TrimSpace\<close> removes leading and trailing white space as defined by Unicode
  (\<^verbatim>\<open>unicode.IsSpace\<close>).  On the bytes of a string this removes, from the front and then
  from the back, every UTF-8 encoding of one of the white space code points: U+0009 to
  U+000D, U+0020, U+0085, U+00A0, U+1680, U+2000 to U+200A, U+2028, U+2029, U+202F,
  U+205F and U+3000.
\<close>

definition spaceRunes :: "string list" where
  "spaceRunes =
    [[CHR 0x09], [CHR 0x0A], [CHR 0x0B], [CHR 0x0C], [CHR 0x0D], [CHR 0x20],
     [CHR 0xC2, CHR 0x85], [CHR 0xC2, CHR 0xA0],
     [CHR 0xE1, CHR 0x9A, CHR 0x80],
     [CHR 0xE2, CHR 0x80, CHR 0x80], [CHR 0xE2, CHR 0x80, CHR 0x81],
     [CHR 0xE2, CHR 0x80, CHR 0x82], [CHR 0xE2, CHR 0x80, CHR 0x83],
     [CHR 0xE2, CHR 0x80, CHR 0x84], [CHR 0xE2, CHR 0x80, CHR 0x85],
     [CHR 0xE2, CHR 0x80, CHR 0x86], [CHR 0xE2, CHR 0x80, CHR 0x87],
     [CHR 0xE2, CHR 0x80, CHR 0x88], [CHR 0xE2, CHR 0x80, CHR 0x89],
     [CHR 0xE2, CHR 0x80, CHR 0x8A],
     [CHR 0xE2, CHR 0x80, CHR 0xA8], [CHR 0xE2, CHR 0x80, CHR 0xA9],
     [CHR 0xE2, CHR 0x80, CHR 0xAF], [CHR 0xE2, CHR 0x81, CHR 0x9F],
     [CHR 0xE3, CHR 0x80, CHR 0x80]]"

definition leadingSpace :: "string \<Rightarrow> nat" where
  "leadingSpace s = (case find (HasPrefix s) spaceRunes of Some e \<Rightarrow> length e | None \<Rightarrow> 0)"

definition trailingSpace :: "string \<Rightarrow> nat" where
  "trailingSpace s = (case find (HasSuffix s) spaceRunes of Some e \<Rightarrow> length e | None \<Rightarrow> 0)"

function TrimLeftSpace :: "string \<Rightarrow> string" where
  "TrimLeftSpace s =
     (if 0 < leadingSpace s \<and> leadingSpace s \<le> length s
      then TrimLeftSpace (drop (leadingSpace s) s) else s)"
  by pat_completeness auto
termination
  by (relation "measure length") auto

function TrimRightSpace :: "string \<Rightarrow> string" where
  "TrimRightSpace s =
     (if 0 < trailingSpace s \<and> trailingSpace s \<le> length s
      then TrimRightSpace (take (length s - trailingSpace s) s) else s)"
  by pat_completeness auto
termination
  by (relation "measure length") auto

declare TrimLeftSpace.simps [simp del]
declare TrimRightSpace.simps [simp del]

definition TrimSpace :: "string \<Rightarrow> string" where
  "TrimSpace s = TrimRightSpace (TrimLeftSpace s)"

subsection \<open>Package strconv\<close>

text \<open>
  \<^verbatim>\<open>strconv.Atoi\<close> for a 64-bit \<^verbatim>\<open>int\<close>: an optional sign followed by one or more
  decimal digits.  A string of any other shape gives 0 and a syntax error; a value outside
  the 64-bit range gives the nearest bound and a range error.  The digits are read left to
  right, and the first offending byte decides which error is reported.
\<close>

definition isDigit :: "char \<Rightarrow> bool" where
  "isDigit c \<longleftrightarrow> (48::int) \<le> of_char c \<and> of_char c \<le> (57::int)"

definition digitVal :: "char \<Rightarrow> int" where
  "digitVal c = of_char c - 48"

fun ParseUint :: "string \<Rightarrow> int \<Rightarrow> go_error + int" where
  "ParseUint [] n = Inr n"
| "ParseUint (c # cs) n =
     (if \<not> isDigit c then Inl ErrSyntax
      else if n * 10 + digitVal c > 2 ^ 64 - 1 then Inl ErrRange
      else ParseUint cs (n * 10 + digitVal c))"

definition Atoi :: "string \<Rightarrow> int \<times> error" where
  "Atoi s =
    (let neg = (s \<noteq> [] \<and> hd s = CHR ''-'');
         digits = (if s \<noteq> [] \<and> (hd s = CHR ''+'' \<or> hd s = CHR ''-'') then tl s else s)
     in if digits = [] then (0, Some (NumError ''Atoi'' s ErrSyntax))
        else (case ParseUint digits 0 of
                Inl ErrRange \<Rightarrow>
                  (if neg then - (2 ^ 63) else 2 ^ 63 - 1, Some (NumError ''Atoi'' s ErrRange))
              | Inl e \<Rightarrow> (0, Some (NumError ''Atoi'' s e))
              | Inr un \<Rightarrow>
                  if \<not> neg \<and> un \<ge> 2 ^ 63
                    then (2 ^ 63 - 1, Some (NumError ''Atoi'' s ErrRange))
                  else if neg \<and> un > 2 ^ 63
                    then (- (2 ^ 63), Some (NumError ''Atoi'' s ErrRange))
                  else (if neg then - un else un, None)))"

subsection \<open>The response pattern\<close>

text \<open>
  \<^verbatim>\<open>responseRegex\<close> is
  \<^verbatim>\<open>^([\d]{3})\sresult=(\-?[[:alnum:]]*)(\s.*)?$\<close>.
  In Go's syntax \<^verbatim>\<open>\d\<close> is an ASCII digit, \<^verbatim>\<open>\s\<close> is one of tab, line feed, form
  feed, carriage return and space, \<^verbatim>\<open>[[:alnum:]]\<close> is an ASCII letter or digit, and
  \<^verbatim>\<open>.\<close> is anything but a line feed.  The pattern is anchored at both ends, so it has
  at most one way to match: the result group takes the optional minus sign and the longest
  run of alphanumerics, and what follows is either the end of the text or the third group.
  \<^verbatim>\<open>FindStringSubmatch\<close> returns \<^verbatim>\<open>nil\<close> (here \<^term>\<open>None\<close>) when the text does
  not match, and otherwise the whole match followed by the text of the three groups, a
  group that did not take part in the match being the empty string.
\<close>

definition isSpaceClass :: "char \<Rightarrow> bool" where
  "isSpaceClass c \<longleftrightarrow> c \<in> set [CHR 0x09, CHR 0x0A, CHR 0x0C, CHR 0x0D, CHR 0x20]"

definition isAlnum :: "char \<Rightarrow> bool" where
  "isAlnum c \<longleftrightarrow>
     isDigit c \<or> ((65::int) \<le> of_char c \<and> of_char c \<le> (90::int))
               \<or> ((97::int) \<le> of_char c \<and> of_char c \<le> (122::int))"

definition FindStringSubmatch :: "string \<Rightarrow> string list option" where
  "FindStringSubmatch raw =
    (case raw of
       d1 # d2 # d3 # sp # rest \<Rightarrow>
         if isDigit d1 \<and> isDigit d2 \<and> isDigit d3 \<and> isSpaceClass sp \<and> HasPrefix rest ''result=''
         then
           (let after = drop (length ''result='') rest;
                minus = (if HasPrefix after ''-'' then ''-'' else []);
                after' = drop (length minus) after;
                result = minus @ takeWhile isAlnum after';
                trailing = dropWhile isAlnum after'
            in if trailing = [] then Some [raw, [d1, d2, d3], result, []]
               else if isSpaceClass (hd trailing) \<and> CHR 0x0A \<notin> set (tl trailing)
                 then Some [raw, [d1, d2, d3], result, trailing]
               else None)
         else None
     | _ \<Rightarrow> None)"

section \<open>Package agi\<close>

subsection \<open>Data model\<close>

text \<open>
  The session.  \<open>reader\<close> (field \<^verbatim>\<open>r\<close> of the source) is represented by the lines
  that a new \<^verbatim>\<open>bufio.Scanner\<close> on it hands out, in order: each is one line of the input
  without its line terminator, and after the last one \<^verbatim>\<open>Scan\<close> returns false (end of
  stream, a failed read, or a line too long for the scanner).  \<open>writer\<close> (field
  \<^verbatim>\<open>w\<close>) is represented by the error its \<^verbatim>\<open>Write\<close> returns for the bytes it
  is given.  The mutex and the logger do not influence the values computed and are left
  out.
\<close>

record AGI =
  Variables :: "string \<rightharpoonup> string"
  reader :: "string list"
  writer :: "string \<Rightarrow> error"

record Response =
  Error :: error
  Status :: int
  Result :: int
  ResultString :: string
  Value :: string

text \<open>The zero value \<^verbatim>\<open>&Response{}\<close>.\<close>

definition zeroResponse :: Response where
  "zeroResponse = \<lparr>Error = None, Status = 0, Result = 0, ResultString = [], Value = []\<rparr>"

subsection \<open>Session construction\<close>

text \<open>
  The scanning loop of \<^verbatim>\<open>NewWithEAGI\<close> (first copy of \<^verbatim>\<open>agi.go\<close>, lines 141 to
  151): stop at the first empty line, store every line that \<^verbatim>\<open>SplitN\<close> cuts in two.
  The second component of the result is the state of the scanner when the loop ends: the
  lines it has not handed out.
\<close>

fun scanVariables ::
  "string list \<Rightarrow> (string \<rightharpoonup> string) \<Rightarrow> (string \<rightharpoonup> string) \<times> string list" where
  "scanVariables [] vars = (vars, [])"
| "scanVariables (text # lines) vars =
     (if text = [] then (vars, lines)
      else (let terms = SplitN text CHR '':'' 2
            in if length terms = 2
               then scanVariables lines (vars(TrimSpace (terms ! 0) \<mapsto> TrimSpace (terms ! 1)))
               else scanVariables lines vars))"

text \<open>
  The scanner is local to \<^verbatim>\<open>NewWithEAGI\<close> and reads from \<^verbatim>\<open>a.r\<close>, the reader the
  session keeps, so the session is left with an input from which the preamble is gone.
  A \<^verbatim>\<open>bufio.Scanner\<close> fills its buffer with whatever a read of the input returns;
  when the loop ends it may therefore hold input that follows the empty line, and this
  input is gone with the scanner.  How much that is depends on how the input arrives and
  is a parameter of the model: \<open>ahead = (n, k)\<close> stands for \<open>n\<close> whole lines and the
  first \<open>k\<close> bytes of the line after them, \<open>(0, 0)\<close> for nothing read ahead.
\<close>

definition readAhead :: "nat \<times> nat \<Rightarrow> string list \<Rightarrow> string list" where
  "readAhead ahead unread =
     (case drop (fst ahead) unread of [] \<Rightarrow> [] | l # ls \<Rightarrow> drop (snd ahead) l # ls)"

text \<open>
  \<^verbatim>\<open>NewWithEAGI\<close> (lines 133 to 154).  The EAGI reader is stored as it is given and is
  left out.
\<close>

definition NewWithEAGI :: "string list \<Rightarrow> (string \<Rightarrow> error) \<Rightarrow> nat \<times> nat \<Rightarrow> AGI" where
  "NewWithEAGI r w ahead =
     (let (vars, unread) = scanVariables r Map.empty
      in \<lparr>Variables = vars, reader = readAhead ahead unread, writer = w\<rparr>)"

text \<open>
  The same loop in the second copy of \<^verbatim>\<open>agi.go\<close> (lines 648 to 658), which calls
  \<^verbatim>\<open>Split\<close> instead of \<^verbatim>\<open>SplitN\<close>.
\<close>

fun scanVariables2 ::
  "string list \<Rightarrow> (string \<rightharpoonup> string) \<Rightarrow> (string \<rightharpoonup> string) \<times> string list" where
  "scanVariables2 [] vars = (vars, [])"
| "scanVariables2 (text # lines) vars =
     (if text = [] then (vars, lines)
      else (let terms = Split text CHR '':''
            in if length terms = 2
               then scanVariables2 lines (vars(TrimSpace (terms ! 0) \<mapsto> TrimSpace (terms ! 1)))
               else scanVariables2 lines vars))"

definition NewWithEAGI2 :: "string list \<Rightarrow> (string \<Rightarrow> error) \<Rightarrow> nat \<times> nat \<Rightarrow> AGI" where
  "NewWithEAGI2 r w ahead =
     (let (vars, unread) = scanVariables2 r Map.empty
      in \<lparr>Variables = vars, reader = readAhead ahead unread, writer = w\<rparr>)"

subsection \<open>The command exchange\<close>

text \<open>The status check that ends \<^verbatim>\<open>Command\<close> (lines 288 to 292).\<close>

definition checkStatus :: "Response \<Rightarrow> Response" where
  "checkStatus resp =
     (if Status resp \<noteq> 200 then resp\<lparr>Error := Some (Errorf ''Non-200 status code'')\<rparr>
      else resp)"

text \<open>
  \<^verbatim>\<open>Command\<close>, first copy of \<^verbatim>\<open>agi.go\<close> (lines 212 to 293).  Every path through
  the body of the scanning loop ends in \<^verbatim>\<open>break\<close> or \<^verbatim>\<open>return\<close>, so the loop looks
  at the first line only.
\<close>

definition Command :: "AGI \<Rightarrow> string list \<Rightarrow> Response" where
  "Command a cmd =
    (let resp = zeroResponse;
         cmdString = Join cmd '' '';
         err = writer a (cmdString @ [CHR 0x0A])
     in if err \<noteq> None then resp\<lparr>Error := Wrap err ''failed to send command''\<rparr>
        else (case reader a of
                [] \<Rightarrow> checkStatus resp
              | raw # _ \<Rightarrow>
                  if raw = [] then checkStatus resp
                  else if HasPrefix raw ''HANGUP'' then resp\<lparr>Error := Some ErrHangup\<rparr>
                  else (case FindStringSubmatch raw of
                          None \<Rightarrow> resp\<lparr>Error := Some (Errorf (''failed to parse result: '' @ raw))\<rparr>
                        | Some pieces \<Rightarrow>
                            (let (status, err) = Atoi (pieces ! 1);
                                 resp = resp\<lparr>Status := status\<rparr>
                             in if err \<noteq> None
                                then resp\<lparr>Error := Wrap err ''failed to get status code''\<rparr>
                                else
                                  (let resp = resp\<lparr>ResultString := pieces ! 2\<rparr>;
                                       (result, err) = Atoi (pieces ! 2);
                                       resp = resp\<lparr>Result := result\<rparr>;
                                       resp = (if err \<noteq> None
                                               then resp\<lparr>Error := Wrap err
                                                 ''failed to parse result-code as an integer''\<rparr>
                                               else resp);
                                       wrappedVal = TrimSpace (pieces ! 3);
                                       resp = resp\<lparr>Value :=
                                                TrimSuffix (TrimPrefix wrappedVal ''('') '')''\<rparr>
                                   in checkStatus resp)))))"

text \<open>
  \<^verbatim>\<open>Command\<close>, second copy of \<^verbatim>\<open>agi.go\<close> (lines 719 to 774): no hangup check, and
  a result that is not an integer returns at once.
\<close>

definition Command2 :: "AGI \<Rightarrow> string list \<Rightarrow> Response" where
  "Command2 a cmd =
    (let resp = zeroResponse;
         cmdString = Join cmd '' '' @ [CHR 0x0A];
         err = writer a cmdString
     in if err \<noteq> None then resp\<lparr>Error := Wrap err ''failed to send command''\<rparr>
        else (case reader a of
                [] \<Rightarrow> checkStatus resp
              | raw # _ \<Rightarrow>
                  if raw = [] then checkStatus resp
                  else (case FindStringSubmatch raw of
                          None \<Rightarrow> resp\<lparr>Error := Some (Errorf (''failed to parse result: '' @ raw))\<rparr>
                        | Some pieces \<Rightarrow>
                            (let (status, err) = Atoi (pieces ! 1);
                                 resp = resp\<lparr>Status := status\<rparr>
                             in if err \<noteq> None
                                then resp\<lparr>Error := Wrap err ''failed to get status code''\<rparr>
                                else
                                  (let resp = resp\<lparr>ResultString := pieces ! 2\<rparr>;
                                       (result, err) = Atoi (pieces ! 2);
                                       resp = resp\<lparr>Result := result\<rparr>
                                   in if err \<noteq> None
                                      then resp\<lparr>Error := Wrap err
                                        ''failed to parse status code as an integer''\<rparr>
                                      else
                                        (let wrappedVal = TrimSpace (pieces ! 3);
                                             resp = resp\<lparr>Value :=
                                               TrimSuffix (TrimPrefix wrappedVal ''('') '')''\<rparr>
                                         in checkStatus resp))))))"

subsection \<open>The FastAGI listener\<close>

text \<open>
  \<^verbatim>\<open>Listen\<close> (lines 174 to 193).  The network is a parameter: \<open>netListen\<close> is
  \<^verbatim>\<open>net.Listen\<close>, returning a listener and an error, and a listener is represented by
  the stream of results, each a connection and an error, that its successive
  \<^verbatim>\<open>Accept\<close> calls return.  The accept loop has no exit other than the
  \<^verbatim>\<open>return\<close> on a failed \<^verbatim>\<open>Accept\<close>, so \<open>Listen\<close> may run forever: the result
  \<^term>\<open>None\<close> means that it does not return, \<open>Some err\<close> that it returns \<open>err\<close>.  The
  handler runs in a goroutine of its own and has no part in what \<open>Listen\<close> returns.  The
  session handed to it is built inside the loop, by \<^verbatim>\<open>NewConn\<close>; the stream lists the
  results of the \<^verbatim>\<open>Accept\<close> calls that are made, one per iteration, so each
  construction is taken to return.
\<close>

partial_function (option) acceptLoop :: "('c \<times> error) stream \<Rightarrow> error option" where
  "acceptLoop l =
     (let (conn, err) = shd l
      in if err \<noteq> None then Some (Wrap err ''failed to accept TCP connection'')
         else acceptLoop (stl l))"

definition Listen ::
  "string \<Rightarrow> (string \<Rightarrow> string \<Rightarrow> ('c \<times> error) stream \<times> error) \<Rightarrow> error option" where
  "Listen addr netListen =
     (let addr = (if addr = [] then ''localhost:4573'' else addr);
          (l, err) = netListen ''tcp'' addr
      in if err \<noteq> None then Some (Wrap err ''failed to bind server'')
         else acceptLoop l)"

subsection \<open>The shape of a response line\<close>

text \<open>
  The words of the response grammar, used to state the properties below.  A result token is
  an optional minus sign followed by alphanumerics.  The third group of the pattern is
  either absent or one white space character followed by anything on the same line.
\<close>

definition resultToken :: "string \<Rightarrow> bool" where
  "resultToken R \<longleftrightarrow> list_all isAlnum (TrimPrefix R ''-'')"

definition trailingGroup :: "string \<Rightarrow> bool" where
  "trailingGroup T \<longleftrightarrow> T = [] \<or> (isSpaceClass (hd T) \<and> CHR 0x0A \<notin> set (tl T))"

text \<open>
  To state the value of a response in closed form: \<open>blank\<close> is an ASCII white space
  character other than the line feed, \<open>visible\<close> a printable ASCII character other than
  the space.
\<close>

definition blank :: "char \<Rightarrow> bool" where
  "blank c \<longleftrightarrow> c \<in> set [CHR 0x09, CHR 0x0B, CHR 0x0C, CHR 0x0D, CHR 0x20]"

definition visible :: "char \<Rightarrow> bool" where
  "visible c \<longleftrightarrow> (33::int) \<le> of_char c \<and> of_char c \<le> (126::int)"

subsection \<open>The preamble in the words of the specification\<close>

text \<open>
  The preamble reader as the specification describes it, to be compared with
  \<^const>\<open>scanVariables\<close>: a line containing a colon is cut at its first colon into a key
  and a value, both are trimmed of surrounding white space and stored; a line without a
  colon stores nothing; only the lines before the first empty line count.
\<close>

definition spec_storeLine :: "string \<Rightarrow> (string \<rightharpoonup> string) \<Rightarrow> (string \<rightharpoonup> string)" where
  "spec_storeLine l vars =
     (if CHR '':'' \<in> set l
      then vars(TrimSpace (takeWhile (\<lambda>c. c \<noteq> CHR '':'') l) \<mapsto>
                TrimSpace (tl (dropWhile (\<lambda>c. c \<noteq> CHR '':'') l)))
      else vars)"

definition spec_preamble :: "string list \<Rightarrow> (string \<rightharpoonup> string)" where
  "spec_preamble lines = fold spec_storeLine (takeWhile (\<lambda>l. l \<noteq> []) lines) Map.empty"

section \<open>Properties\<close>

subsection \<open>Digits and integer conversion\<close>

lemma isDigit_not_sign: "isDigit c \<Longrightarrow> c \<noteq> CHR ''+'' \<and> c \<noteq> CHR ''-''"
  by (auto simp: isDigit_def)

lemma digitVal_range: "isDigit c \<Longrightarrow> 0 \<le> digitVal c \<and> digitVal c \<le> 9"
  by (auto simp: isDigit_def digitVal_def)

lemma isDigit_not_H: "isDigit c \<Longrightarrow> c \<noteq> CHR ''H''"
  by (auto simp: isDigit_def)

lemma Atoi_three_digits:
  assumes "isDigit d1" "isDigit d2" "isDigit d3"
  shows "Atoi [d1, d2, d3] = (100 * digitVal d1 + 10 * digitVal d2 + digitVal d3, None)"
  using assms digitVal_range[of d1] digitVal_range[of d2] digitVal_range[of d3] isDigit_not_sign[of d1]
  by (simp add: Atoi_def)



subsection \<open>The texts that match the response pattern\<close>

lemma isAlnum_not_space: "isAlnum c \<Longrightarrow> \<not> isSpaceClass c"
  by (auto simp: isAlnum_def isSpaceClass_def isDigit_def)

lemma isAlnum_not_minus: "isAlnum c \<Longrightarrow> c \<noteq> CHR ''-''"
  by (auto simp: isAlnum_def isDigit_def)

lemma isSpaceClass_not_minus: "isSpaceClass c \<Longrightarrow> c \<noteq> CHR ''-''"
  by (auto simp: isSpaceClass_def)

lemma HasPrefix_Cons: "HasPrefix s [c] \<longleftrightarrow> (\<exists>t. s = c # t)"
  by (cases s) (auto simp: HasPrefix_def)

lemma HasPrefix_single: "HasPrefix (c # s) [c'] \<longleftrightarrow> c = c'"
  by (auto simp: HasPrefix_def)

lemma alnum_run:
  assumes "list_all isAlnum al" "trailingGroup T"
  shows "takeWhile isAlnum (al @ T) = al" "dropWhile isAlnum (al @ T) = T"
proof -
  have T: "takeWhile isAlnum T = []" "dropWhile isAlnum T = T"
    using assms(2) isAlnum_not_space by (cases T; auto simp: trailingGroup_def)+
  from assms(1) have al: "\<forall>c\<in>set al. isAlnum c" by (simp add: list_all_iff)
  show "takeWhile isAlnum (al @ T) = al" using al T by (simp add: takeWhile_append2)
  show "dropWhile isAlnum (al @ T) = T" using al T by (simp add: dropWhile_append2)
qed

lemma resultToken_cases:
  assumes "resultToken R"
  obtains (plain) "list_all isAlnum R" "\<not> HasPrefix R ''-''"
        | (minus) al where "R = CHR ''-'' # al" "list_all isAlnum al"
proof (cases "HasPrefix R ''-''")
  case True
  then obtain al where "R = CHR ''-'' # al" by (auto simp: HasPrefix_Cons)
  with assms True show ?thesis by (intro minus[of al]) (auto simp: resultToken_def TrimPrefix_def)
next
  case False
  with assms show ?thesis by (intro plain) (auto simp: resultToken_def TrimPrefix_def)
qed

text \<open>
  A text matches the pattern exactly when it is made of three digits, one white space
  character, the literal \<open>result=\<close>, a result token and a third group; the groups
  returned are then these parts.
\<close>

lemma FindStringSubmatch_matches:
  assumes d: "isDigit d1" "isDigit d2" "isDigit d3" and sp: "isSpaceClass sp"
    and R: "resultToken R" and T: "trailingGroup T"
  shows "FindStringSubmatch (d1 # d2 # d3 # sp # ''result='' @ R @ T) =
           Some [d1 # d2 # d3 # sp # ''result='' @ R @ T, [d1, d2, d3], R, T]"
proof -
  have pre: "HasPrefix (''result='' @ R @ T) ''result=''" by (simp add: HasPrefix_def)
  have dr: "drop (length ''result='') (''result='' @ R @ T) = R @ T" by simp
  from R show ?thesis
  proof (cases rule: resultToken_cases)
    case plain
    have "\<not> HasPrefix (R @ T) ''-''"
    proof (cases R)
      case Nil
      with T isSpaceClass_not_minus show ?thesis
        by (cases T) (auto simp: HasPrefix_Cons trailingGroup_def)
    next
      case (Cons c cs)
      with plain show ?thesis by (auto simp: HasPrefix_Cons)
    qed
    with plain alnum_run[OF plain(1) T] d sp pre T show ?thesis
      unfolding FindStringSubmatch_def list.case dr Let_def
      by (auto simp: trailingGroup_def list_all_iff)
  next
    case (minus al)
    then have hp: "HasPrefix (R @ T) ''-''" by (simp add: HasPrefix_Cons)
    have "drop (length ''-'') (R @ T) = al @ T" using minus by simp
    with minus alnum_run[OF minus(2) T] d sp pre hp T show ?thesis
      unfolding FindStringSubmatch_def list.case dr Let_def
      by (auto simp: trailingGroup_def list_all_iff)
  qed
qed

lemma FindStringSubmatch_Some:
  assumes "FindStringSubmatch raw = Some pieces"
  shows "\<exists>d1 d2 d3 sp R T. raw = d1 # d2 # d3 # sp # ''result='' @ R @ T \<and>
           isDigit d1 \<and> isDigit d2 \<and> isDigit d3 \<and> isSpaceClass sp \<and> resultToken R \<and>
           trailingGroup T \<and> pieces = [raw, [d1, d2, d3], R, T]"
proof -
  from assms obtain d1 d2 d3 sp rest where raw: "raw = d1 # d2 # d3 # sp # rest"
    by (auto simp: FindStringSubmatch_def split: list.splits)
  from assms raw have d: "isDigit d1" "isDigit d2" "isDigit d3" "isSpaceClass sp"
    and pre: "HasPrefix rest ''result=''"
    by (auto simp: FindStringSubmatch_def split: if_splits)
  define after where "after = drop (length ''result='') rest"
  from pre have "rest = ''result='' @ drop (length ''result='') rest"
    unfolding HasPrefix_def by (metis append_take_drop_id)
  then have rest: "rest = ''result='' @ after"
    unfolding after_def .
  define minus where "minus = (if HasPrefix after ''-'' then ''-'' else [])"
  define after' where "after' = drop (length minus) after"
  define al where "al = takeWhile isAlnum after'"
  define T where "T = dropWhile isAlnum after'"
  have after: "after = minus @ al @ T"
    unfolding al_def T_def after'_def minus_def by (auto simp: HasPrefix_Cons)
  have al: "list_all isAlnum al"
    unfolding al_def by (simp add: list_all_iff) (meson set_takeWhileD)
  have R: "resultToken (minus @ al)"
  proof (cases "HasPrefix after ''-''")
    case True
    then show ?thesis using al by (simp add: minus_def resultToken_def TrimPrefix_def HasPrefix_def)
  next
    case False
    then have "minus = []" by (simp add: minus_def)
    moreover have "\<not> HasPrefix al ''-''"
      using al isAlnum_not_minus by (cases al) (auto simp: HasPrefix_Cons)
    ultimately show ?thesis using al by (simp add: resultToken_def TrimPrefix_def)
  qed
  from assms raw d pre have res: "(if T = [] then Some [raw, [d1, d2, d3], minus @ al, []]
       else if isSpaceClass (hd T) \<and> CHR 0x0A \<notin> set (tl T)
         then Some [raw, [d1, d2, d3], minus @ al, T] else None) = Some pieces"
    unfolding FindStringSubmatch_def list.case Let_def T_def al_def after'_def minus_def after_def
    by simp
  then have T: "trailingGroup T" and pieces: "pieces = [raw, [d1, d2, d3], minus @ al, T]"
    by (auto simp: trailingGroup_def split: if_splits)
  show ?thesis
    using raw rest after d R T pieces by (intro exI[of _ d1] exI[of _ d2] exI[of _ d3] exI[of _ sp] exI[of _ "minus @ al"] exI[of _ T]) simp
qed

subsection \<open>Trimming\<close>

lemma HasPrefix_hd: "HasPrefix s e \<Longrightarrow> e \<noteq> [] \<Longrightarrow> s \<noteq> [] \<and> hd s = hd e"
  by (cases s; cases e) (auto simp: HasPrefix_def)

lemma HasSuffix_last:
  assumes "HasSuffix s e" "e \<noteq> []"
  shows "s \<noteq> [] \<and> last s = last e"
proof -
  from assms have len: "length e \<le> length s" "0 < length e"
    and eq: "drop (length s - length e) s = e"
    by (auto simp: HasSuffix_def)
  then have "length s - length e < length s" by linarith
  then have "last (drop (length s - length e) s) = last s" by (rule last_drop)
  with eq len show ?thesis by auto
qed

lemma spaceRunes_nonempty: "e \<in> set spaceRunes \<Longrightarrow> e \<noteq> []"
  by (auto simp: spaceRunes_def)

lemma leadingSpace_zero:
  assumes "s = [] \<or> hd s \<notin> hd ` set spaceRunes"
  shows "leadingSpace s = 0"
proof -
  have "\<not> HasPrefix s e" if "e \<in> set spaceRunes" for e
    using assms that HasPrefix_hd[of s e] spaceRunes_nonempty[OF that] by auto
  then have "find (HasPrefix s) spaceRunes = None" by (simp add: find_None_iff)
  then show ?thesis by (simp add: leadingSpace_def)
qed

lemma trailingSpace_zero:
  assumes "s = [] \<or> last s \<notin> last ` set spaceRunes"
  shows "trailingSpace s = 0"
proof -
  have "\<not> HasSuffix s e" if "e \<in> set spaceRunes" for e
    using assms that HasSuffix_last[of s e] spaceRunes_nonempty[OF that] by auto
  then have "find (HasSuffix s) spaceRunes = None" by (simp add: find_None_iff)
  then show ?thesis by (simp add: trailingSpace_def)
qed

lemma TrimLeftSpace_id: "leadingSpace s = 0 \<Longrightarrow> TrimLeftSpace s = s"
  by (subst TrimLeftSpace.simps) simp

lemma TrimRightSpace_id: "trailingSpace s = 0 \<Longrightarrow> TrimRightSpace s = s"
  by (subst TrimRightSpace.simps) simp

lemma leadingSpace_ascii:
  assumes "isSpaceClass sp"
  shows "leadingSpace (sp # s) = 1"
proof -
  from assms consider "sp = CHR 0x09" | "sp = CHR 0x0A" | "sp = CHR 0x0C" | "sp = CHR 0x0D"
    | "sp = CHR 0x20"
    by (auto simp: isSpaceClass_def)
  then show ?thesis
    by cases (simp_all add: leadingSpace_def spaceRunes_def HasPrefix_single)
qed

lemma TrimLeftSpace_ascii: "isSpaceClass sp \<Longrightarrow> TrimLeftSpace (sp # s) = TrimLeftSpace s"
  by (subst TrimLeftSpace.simps) (simp add: leadingSpace_ascii)

lemma TrimSpace_ascii: "isSpaceClass sp \<Longrightarrow> TrimSpace (sp # s) = TrimSpace s"
  by (simp add: TrimSpace_def TrimLeftSpace_ascii)

lemma TrimSpace_tl: "trailingGroup T \<Longrightarrow> TrimSpace T = TrimSpace (tl T)"
  by (cases T) (auto simp: trailingGroup_def TrimSpace_ascii)

lemma TrimSpace_Nil: "TrimSpace [] = []"
  by (simp add: TrimSpace_def TrimLeftSpace_id TrimRightSpace_id leadingSpace_zero trailingSpace_zero)

lemma TrimSpace_parens: "TrimSpace (CHR ''('' # V @ '')'') = CHR ''('' # V @ '')''"
proof -
  have "leadingSpace (CHR ''('' # V @ '')'') = 0"
    by (rule leadingSpace_zero) (simp add: spaceRunes_def)
  moreover have "trailingSpace ((CHR ''('' # V) @ '')'') = 0"
    by (rule trailingSpace_zero) (simp add: spaceRunes_def)
  ultimately show ?thesis
    by (simp add: TrimSpace_def TrimLeftSpace_id TrimRightSpace_id)
qed

lemma strip_parens: "TrimSuffix (TrimPrefix (CHR ''('' # V @ '')'') ''('') '')'' = V"
  by (simp add: TrimPrefix_def TrimSuffix_def HasPrefix_def HasSuffix_def)

lemma trailingGroup_parens:
  "CHR 0x0A \<notin> set V \<Longrightarrow> trailingGroup ('' ('' @ V @ '')'')"
  by (simp add: trailingGroup_def isSpaceClass_def)

lemma HasSuffix_single: "HasSuffix (s @ [c]) [c'] \<longleftrightarrow> c = c'"
  by (auto simp: HasSuffix_def)

lemma leadingSpace_blank:
  assumes "blank c"
  shows "leadingSpace (c # s) = 1"
proof -
  from assms consider "c = CHR 0x09" | "c = CHR 0x0B" | "c = CHR 0x0C" | "c = CHR 0x0D"
    | "c = CHR 0x20"
    by (auto simp: blank_def)
  then show ?thesis
    by cases (simp_all add: leadingSpace_def spaceRunes_def HasPrefix_single)
qed

lemma trailingSpace_blank:
  assumes "blank c"
  shows "trailingSpace (s @ [c]) = 1"
proof -
  from assms consider "c = CHR 0x09" | "c = CHR 0x0B" | "c = CHR 0x0C" | "c = CHR 0x0D"
    | "c = CHR 0x20"
    by (auto simp: blank_def)
  then show ?thesis
    by cases (simp_all add: trailingSpace_def spaceRunes_def HasSuffix_single)
qed

lemma TrimLeftSpace_blanks: "list_all blank ws \<Longrightarrow> TrimLeftSpace (ws @ s) = TrimLeftSpace s"
proof (induction ws)
  case Nil
  show ?case by simp
next
  case (Cons c ws)
  then have "blank c" and IH: "TrimLeftSpace (ws @ s) = TrimLeftSpace s" by simp_all
  then show ?case
    by (subst TrimLeftSpace.simps) (simp add: leadingSpace_blank)
qed

lemma TrimRightSpace_blank: "blank c \<Longrightarrow> TrimRightSpace (t @ [c]) = TrimRightSpace t"
  by (subst TrimRightSpace.simps) (simp add: trailingSpace_blank)

lemma TrimRightSpace_blanks: "list_all blank ws \<Longrightarrow> TrimRightSpace (s @ ws) = TrimRightSpace s"
proof (induction ws rule: rev_induct)
  case Nil
  show ?case by simp
next
  case (snoc c ws)
  then have c: "blank c" and IH: "TrimRightSpace (s @ ws) = TrimRightSpace s" by simp_all
  have "TrimRightSpace ((s @ ws) @ [c]) = TrimRightSpace (s @ ws)"
    using c by (rule TrimRightSpace_blank)
  with IH show ?case by simp
qed

lemma visible_not_first: "visible c \<Longrightarrow> c \<notin> hd ` set spaceRunes"
  by (auto simp: visible_def spaceRunes_def)

lemma visible_not_last: "visible c \<Longrightarrow> c \<notin> last ` set spaceRunes"
  by (auto simp: visible_def spaceRunes_def)

text \<open>
  Trimming in closed form: blanks on both sides of a text that begins and ends with a
  visible character are removed and nothing else; removing a one-character prefix or
  suffix is \<^const>\<open>tl\<close> or \<^const>\<open>butlast\<close>.
\<close>

lemma TrimSpace_core:
  assumes ws: "list_all blank ws1" "list_all blank ws2"
    and core: "core = [] \<or> (visible (hd core) \<and> visible (last core))"
  shows "TrimSpace (ws1 @ core @ ws2) = core"
proof (cases "core = []")
  case True
  have "TrimLeftSpace (ws1 @ ws2 @ []) = TrimLeftSpace []"
    using ws TrimLeftSpace_blanks[of "ws1 @ ws2" "[]"] by simp
  then show ?thesis
    using True by (simp add: TrimSpace_def TrimLeftSpace_id TrimRightSpace_id leadingSpace_zero trailingSpace_zero)
next
  case False
  with core have v: "visible (hd core)" "visible (last core)" by simp_all
  have "leadingSpace (core @ ws2) = 0"
    using False visible_not_first[OF v(1)] by (intro leadingSpace_zero) simp
  then have l: "TrimLeftSpace (ws1 @ core @ ws2) = core @ ws2"
    using TrimLeftSpace_blanks[OF ws(1)] by (simp add: TrimLeftSpace_id)
  have "trailingSpace core = 0"
    using visible_not_last[OF v(2)] by (intro trailingSpace_zero) simp
  then have "TrimRightSpace (core @ ws2) = core"
    using TrimRightSpace_blanks[OF ws(2)] by (simp add: TrimRightSpace_id)
  with l show ?thesis by (simp add: TrimSpace_def)
qed

lemma TrimPrefix_single:
  "TrimPrefix s [c] = (if s \<noteq> [] \<and> hd s = c then tl s else s)"
  by (cases s) (auto simp: TrimPrefix_def HasPrefix_single HasPrefix_def)

lemma TrimSuffix_single:
  "TrimSuffix s [c] = (if s \<noteq> [] \<and> last s = c then butlast s else s)"
proof (cases s rule: rev_cases)
  case Nil
  then show ?thesis by (simp add: TrimSuffix_def HasSuffix_def)
next
  case (snoc xs x)
  then show ?thesis by (simp add: TrimSuffix_def HasSuffix_single)
qed

subsection \<open>The response to a line that matches\<close>

lemma checkStatus_fields:
  "Status (checkStatus resp) = Status resp" "Result (checkStatus resp) = Result resp"
  "ResultString (checkStatus resp) = ResultString resp" "Value (checkStatus resp) = Value resp"
  by (simp_all add: checkStatus_def)

lemma checkStatus_Error:
  "Error (checkStatus resp) =
     (if Status resp \<noteq> 200 then Some (Errorf ''Non-200 status code'') else Error resp)"
  by (simp add: checkStatus_def)

lemma Wrap_not_hangup: "Wrap err msg \<noteq> Some ErrHangup"
  by (cases err) simp_all

text \<open>
  What \<^const>\<open>Command\<close> computes from a first line that matches the pattern: the parsed
  fields, with the conversion error of the result token if there is one, passed through
  the final status check.
\<close>

lemma Command_on_match:
  assumes w: "writer a (Join cmd '' '' @ [CHR 0x0A]) = None"
    and r: "reader a = (d1 # d2 # d3 # sp # ''result='' @ R @ T) # rest"
    and d: "isDigit d1" "isDigit d2" "isDigit d3" and sp: "isSpaceClass sp"
    and R: "resultToken R" and T: "trailingGroup T"
  shows "Command a cmd = checkStatus
           \<lparr>Error = Wrap (snd (Atoi R)) ''failed to parse result-code as an integer'',
            Status = 100 * digitVal d1 + 10 * digitVal d2 + digitVal d3,
            Result = fst (Atoi R), ResultString = R,
            Value = TrimSuffix (TrimPrefix (TrimSpace T) ''('') '')''\<rparr>"
proof -
  have nh: "\<not> HasPrefix (d1 # d2 # d3 # sp # ''result='' @ R @ T) ''HANGUP''"
    using isDigit_not_H[OF d(1)] by (auto simp: HasPrefix_def)
  show ?thesis
    unfolding Command_def Let_def
    using w r nh FindStringSubmatch_matches[OF d sp R T] Atoi_three_digits[OF d]
    by (cases "Atoi R") (auto simp: zeroResponse_def)
qed

subsection \<open>Well-formed response lines\<close>

text \<open>
  C1: a received line \<open>DDD result=R (V)\<close>, made of three decimal digits, a single space,
  the literal \<open>result=\<close>, a result token (an optional minus sign followed by
  alphanumerics), a space and a parenthesized value, gives a response with status
  \<open>DDD\<close>, result string \<open>R\<close> and value \<open>V\<close>, and no error when \<open>DDD\<close> is 200 and
  \<open>R\<close> converts to an integer.  A line never contains a line feed.
\<close>

theorem Command_well_formed_line:
  assumes w: "writer a (Join cmd '' '' @ [CHR 0x0A]) = None"
    and r: "reader a = ([d1, d2, d3] @ '' result='' @ R @ '' ('' @ V @ '')'') # rest"
    and d: "isDigit d1" "isDigit d2" "isDigit d3"
    and R: "resultToken R" and V: "CHR 0x0A \<notin> set V"
  shows "Status (Command a cmd) = 100 * digitVal d1 + 10 * digitVal d2 + digitVal d3 \<and>
         ResultString (Command a cmd) = R \<and> Value (Command a cmd) = V \<and>
         Result (Command a cmd) = fst (Atoi R) \<and>
         ([d1, d2, d3] = ''200'' \<and> snd (Atoi R) = None \<longrightarrow> Error (Command a cmd) = None)"
proof -
  have sp: "isSpaceClass CHR '' ''" by (simp add: isSpaceClass_def)
  from r have r': "reader a = (d1 # d2 # d3 # CHR '' '' # ''result='' @ R @ ('' ('' @ V @ '')'')) # rest"
    by simp
  note eq = Command_on_match[OF w r' d sp R trailingGroup_parens[OF V]]
  have val: "TrimSuffix (TrimPrefix (TrimSpace ('' ('' @ V @ '')'')) ''('') '')'' = V"
    using TrimSpace_ascii[OF sp, of "CHR ''('' # V @ '')''"] TrimSpace_parens[of V] strip_parens[of V]
    by simp
  have ok: "100 * digitVal d1 + 10 * digitVal d2 + digitVal d3 = 200" if "[d1, d2, d3] = ''200''"
    using that by (simp add: digitVal_def)
  show ?thesis
    unfolding eq checkStatus_fields checkStatus_Error using val ok by simp
qed

theorem Command_well_formed_line_witness:
  "Status (Command \<lparr>Variables = Map.empty, reader = [''200 result=1 (timeout)''],
                     writer = (\<lambda>b. None)\<rparr> [''GET DATA'', ''hello'']) = 200 \<and>
   ResultString (Command \<lparr>Variables = Map.empty, reader = [''200 result=1 (timeout)''],
                     writer = (\<lambda>b. None)\<rparr> [''GET DATA'', ''hello'']) = ''1'' \<and>
   Value (Command \<lparr>Variables = Map.empty, reader = [''200 result=1 (timeout)''],
                     writer = (\<lambda>b. None)\<rparr> [''GET DATA'', ''hello'']) = ''timeout'' \<and>
   Result (Command \<lparr>Variables = Map.empty, reader = [''200 result=1 (timeout)''],
                     writer = (\<lambda>b. None)\<rparr> [''GET DATA'', ''hello'']) = 1 \<and>
   Error (Command \<lparr>Variables = Map.empty, reader = [''200 result=1 (timeout)''],
                     writer = (\<lambda>b. None)\<rparr> [''GET DATA'', ''hello'']) = None"
  using Command_well_formed_line [of "\<lparr>Variables = Map.empty, reader = [''200 result=1 (timeout)''],
                     writer = (\<lambda>b. None)\<rparr>" "[''GET DATA'', ''hello'']" "CHR ''2''" "CHR ''0''" "CHR ''0''"
                     "''1''" "''timeout''" "[]"]
  by (simp add: isDigit_def digitVal_def resultToken_def TrimPrefix_def HasPrefix_def isAlnum_def Atoi_def)

subsection \<open>No response line\<close>

text \<open>
  C10: when the write succeeds and the input gives an empty line or ends before any
  response line, the response has status 0, zero-valued result fields and the
  \<open>Non-200 status code\<close> error, which is neither the error of a failed write nor the
  error of a line that does not parse.  Both copies of \<^verbatim>\<open>Command\<close> agree here.
\<close>

theorem Command_no_response_line:
  assumes "writer a (Join cmd '' '' @ [CHR 0x0A]) = None"
    and "reader a = [] \<or> (\<exists>rest. reader a = [] # rest)"
  shows "Command a cmd = \<lparr>Error = Some (Errorf ''Non-200 status code''), Status = 0, Result = 0,
                          ResultString = [], Value = []\<rparr> \<and>
         Command2 a cmd = Command a cmd \<and>
         (\<forall>err. Error (Command a cmd) \<noteq> Wrap (Some err) ''failed to send command'') \<and>
         (\<forall>raw. Error (Command a cmd) \<noteq> Some (Errorf (''failed to parse result: '' @ raw)))"
  using assms
  by (auto simp: Command_def Command2_def checkStatus_def zeroResponse_def)

theorem Command_no_response_line_witness:
  "Command \<lparr>Variables = Map.empty, reader = [[], ''200 result=0''], writer = (\<lambda>b. None)\<rparr> [''ANSWER'']
     = \<lparr>Error = Some (Errorf ''Non-200 status code''), Status = 0, Result = 0,
        ResultString = [], Value = []\<rparr>"
  using Command_no_response_line [of "\<lparr>Variables = Map.empty, reader = [[], ''200 result=0''], writer = (\<lambda>b. None)\<rparr>" "[''ANSWER'']"]
  by simp

subsection \<open>The value of a response\<close>

text \<open>
  C2, as the code has it: for a line that matches the pattern, with third group \<open>T\<close>
  (empty, or the separating white space followed by the trailing segment \<open>tl T\<close>), the
  value is the trailing segment with surrounding white space removed, then without one
  leading \<open>(\<close> if there is one, then without one trailing \<open>)\<close> if there is one.  So a
  fully parenthesized segment gives the enclosed text, a segment with neither parenthesis
  gives the segment itself, and the value is empty when there is no trailing segment.
\<close>

theorem Command_Value_of_trailing_segment:
  assumes w: "writer a (Join cmd '' '' @ [CHR 0x0A]) = None"
    and r: "reader a = (d1 # d2 # d3 # sp # ''result='' @ R @ T) # rest"
    and d: "isDigit d1" "isDigit d2" "isDigit d3" and sp: "isSpaceClass sp"
    and R: "resultToken R" and T: "trailingGroup T"
  shows "Value (Command a cmd) = TrimSuffix (TrimPrefix (TrimSpace (tl T)) ''('') '')'' \<and>
         (TrimSpace (tl T) = ''('' @ V @ '')'' \<longrightarrow> Value (Command a cmd) = V) \<and>
         (\<not> HasPrefix (TrimSpace (tl T)) ''('' \<and> \<not> HasSuffix (TrimSpace (tl T)) '')''
            \<longrightarrow> Value (Command a cmd) = TrimSpace (tl T)) \<and>
         (T = [] \<longrightarrow> Value (Command a cmd) = [])"
proof -
  have val: "Value (Command a cmd) = TrimSuffix (TrimPrefix (TrimSpace (tl T)) ''('') '')''"
    unfolding Command_on_match[OF w r d sp R T] checkStatus_fields
    using TrimSpace_tl[OF T] by simp
  moreover have "TrimSuffix (TrimPrefix (TrimSpace (tl T)) ''('') '')'' = V"
    if "TrimSpace (tl T) = ''('' @ V @ '')''"
    using that strip_parens[of V] by simp
  moreover have "TrimSuffix (TrimPrefix (TrimSpace (tl T)) ''('') '')'' = TrimSpace (tl T)"
    if "\<not> HasPrefix (TrimSpace (tl T)) ''(''" "\<not> HasSuffix (TrimSpace (tl T)) '')''"
    using that by (simp add: TrimPrefix_def TrimSuffix_def)
  moreover have "TrimSuffix (TrimPrefix (TrimSpace (tl T)) ''('') '')'' = []" if "T = []"
    using that by (simp add: TrimSpace_Nil TrimPrefix_def TrimSuffix_def HasPrefix_def HasSuffix_def)
  ultimately show ?thesis by simp
qed

theorem Command_Value_of_trailing_segment_witness:
  "Value (Command \<lparr>Variables = Map.empty, reader = [''200 result=0 endpos=1234''],
                    writer = (\<lambda>b. None)\<rparr> [''STREAM FILE'', ''beep'', ''\"\"''])
     = TrimSuffix (TrimPrefix (TrimSpace ''endpos=1234'') ''('') '')''"
  using Command_Value_of_trailing_segment [of "\<lparr>Variables = Map.empty,
      reader = [''200 result=0 endpos=1234''], writer = (\<lambda>b. None)\<rparr>"
      "[''STREAM FILE'', ''beep'', ''\"\"'']" "CHR ''2''" "CHR ''0''" "CHR ''0''" "CHR '' ''"
      "''0''" "'' endpos=1234''" "[]"]
  by (simp add: isDigit_def isSpaceClass_def isAlnum_def resultToken_def trailingGroup_def
      TrimPrefix_def HasPrefix_def)

text \<open>
  A trailing segment that is not parenthesized is not dropped: the line
  \<open>200 result=0 endpos=1234\<close> has the value \<open>endpos=1234\<close>.
\<close>

theorem Value_not_empty_without_parentheses:
  "\<not> (HasPrefix ''endpos=1234'' ''('' \<and> HasSuffix ''endpos=1234'' '')'') \<and>
   Value (Command \<lparr>Variables = Map.empty, reader = [''200 result=0 endpos=1234''],
                    writer = (\<lambda>b. None)\<rparr> [''STREAM FILE'', ''beep'', ''\"\"''])
     = ''endpos=1234''"
  by code_simp

subsection \<open>A result that is not an integer\<close>




text \<open>
  The second copy of \<^verbatim>\<open>Command\<close> returns as soon as the conversion fails, before
  the value is filled in.
\<close>

lemma Command2_result_not_integer:
  "Command2 \<lparr>Variables = Map.empty, reader = [''200 result= (timeout)''],
              writer = (\<lambda>b. None)\<rparr> [''WAIT FOR DIGIT'', ''1000'']
     = \<lparr>Error = Some (Wrapped (NumError ''Atoi'' [] ErrSyntax)
                          ''failed to parse status code as an integer''),
        Status = 200, Result = 0, ResultString = [], Value = []\<rparr>"
  by code_simp

subsection \<open>A status other than 200\<close>

text \<open>
  C5: for a line that matches the pattern with a status code other than 200, the error
  of the response is the \<open>Non-200 status code\<close> error, and the status, the result string
  and the value are those parsed from the line.  The value is given in closed form: it is
  empty when there is no trailing segment, it is \<open>V\<close> when the trailing segment is
  \<open>(V)\<close>, and for a trailing segment made of blanks, a text that begins and ends with a
  visible character, and blanks, it is that text without a leading \<open>(\<close> and without a
  trailing \<open>)\<close>.
\<close>

theorem Command_status_not_200:
  assumes w: "writer a (Join cmd '' '' @ [CHR 0x0A]) = None"
    and r: "reader a = (d1 # d2 # d3 # sp # ''result='' @ R @ T) # rest"
    and d: "isDigit d1" "isDigit d2" "isDigit d3" and sp: "isSpaceClass sp"
    and R: "resultToken R" and T: "trailingGroup T"
    and s: "100 * digitVal d1 + 10 * digitVal d2 + digitVal d3 \<noteq> 200"
  shows "Error (Command a cmd) = Some (Errorf ''Non-200 status code'') \<and>
         Status (Command a cmd) = 100 * digitVal d1 + 10 * digitVal d2 + digitVal d3 \<and>
         ResultString (Command a cmd) = R \<and>
         Result (Command a cmd) = fst (Atoi R) \<and>
         Value (Command a cmd) = TrimSuffix (TrimPrefix (TrimSpace (tl T)) ''('') '')'' \<and>
         (T = [] \<longrightarrow> Value (Command a cmd) = []) \<and>
         (tl T = ''('' @ V @ '')'' \<longrightarrow> Value (Command a cmd) = V) \<and>
         (tl T = ws1 @ core @ ws2 \<and> list_all blank ws1 \<and> list_all blank ws2 \<and>
          (core = [] \<or> (visible (hd core) \<and> visible (last core))) \<longrightarrow>
            Value (Command a cmd) =
              (let inner = (if core \<noteq> [] \<and> hd core = CHR ''('' then tl core else core)
               in if inner \<noteq> [] \<and> last inner = CHR '')'' then butlast inner else inner))"
proof -
  have val: "Value (Command a cmd) = TrimSuffix (TrimPrefix (TrimSpace (tl T)) ''('') '')''"
    unfolding Command_on_match[OF w r d sp R T] checkStatus_fields
    using TrimSpace_tl[OF T] by simp
  have empty: "TrimSuffix (TrimPrefix (TrimSpace (tl T)) ''('') '')'' = []" if "T = []"
    using that
    by (simp add: TrimSpace_def TrimLeftSpace_id TrimRightSpace_id leadingSpace_zero
        trailingSpace_zero TrimPrefix_def TrimSuffix_def HasPrefix_def HasSuffix_def)
  have lead: "leadingSpace (CHR ''('' # V @ '')'') = 0"
    by (rule leadingSpace_zero) (simp add: spaceRunes_def)
  have trail: "trailingSpace ((CHR ''('' # V) @ '')'') = 0"
    by (rule trailingSpace_zero) (simp add: spaceRunes_def)
  have trimmed: "TrimSpace (''('' @ V @ '')'') = ''('' @ V @ '')''"
    using lead trail by (simp add: TrimSpace_def TrimLeftSpace_id TrimRightSpace_id)
  have stripped: "TrimSuffix (TrimPrefix (''('' @ V @ '')'') ''('') '')'' = V"
    by (simp add: TrimPrefix_def TrimSuffix_def HasPrefix_def HasSuffix_def)
  have paren: "TrimSuffix (TrimPrefix (TrimSpace (tl T)) ''('') '')'' = V"
    if "tl T = ''('' @ V @ '')''"
    using that trimmed stripped by simp
  have core: "TrimSuffix (TrimPrefix (TrimSpace (tl T)) ''('') '')'' =
      (let inner = (if core \<noteq> [] \<and> hd core = CHR ''('' then tl core else core)
       in if inner \<noteq> [] \<and> last inner = CHR '')'' then butlast inner else inner)"
    if "tl T = ws1 @ core @ ws2" "list_all blank ws1" "list_all blank ws2"
       "core = [] \<or> (visible (hd core) \<and> visible (last core))"
    using that TrimSpace_core[of ws1 ws2 core]
    by (simp only: TrimPrefix_single TrimSuffix_single Let_def)
  show ?thesis
    unfolding val
    unfolding Command_on_match[OF w r d sp R T] checkStatus_fields checkStatus_Error
    using s empty paren core by simp
qed

theorem Command_status_not_200_witness:
  "Error (Command \<lparr>Variables = Map.empty, reader = [''510 result=-1 (Invalid command)''],
                    writer = (\<lambda>b. None)\<rparr> [''FROBNICATE'']) = Some (Errorf ''Non-200 status code'') \<and>
   Status (Command \<lparr>Variables = Map.empty, reader = [''510 result=-1 (Invalid command)''],
                    writer = (\<lambda>b. None)\<rparr> [''FROBNICATE'']) = 510 \<and>
   ResultString (Command \<lparr>Variables = Map.empty, reader = [''510 result=-1 (Invalid command)''],
                    writer = (\<lambda>b. None)\<rparr> [''FROBNICATE'']) = ''-1'' \<and>
   Result (Command \<lparr>Variables = Map.empty, reader = [''510 result=-1 (Invalid command)''],
                    writer = (\<lambda>b. None)\<rparr> [''FROBNICATE'']) = - 1 \<and>
   Value (Command \<lparr>Variables = Map.empty, reader = [''510 result=-1 (Invalid command)''],
                    writer = (\<lambda>b. None)\<rparr> [''FROBNICATE'']) = ''Invalid command''"
proof -
  have hyps: "isDigit CHR ''5''" "isDigit CHR ''1''" "isDigit CHR ''0''" "isSpaceClass CHR '' ''"
    "resultToken ''-1''" "trailingGroup '' (Invalid command)''"
    "100 * digitVal CHR ''5'' + 10 * digitVal CHR ''1'' + digitVal CHR ''0'' = 510"
    by code_simp+
  have atoi: "fst (Atoi ''-1'') = - 1"
    by code_simp
  have val: "TrimSuffix (TrimPrefix (TrimSpace (tl '' (Invalid command)'')) ''('') '')''
               = ''Invalid command''"
    by code_simp
  from Command_status_not_200 [of "\<lparr>Variables = Map.empty,
      reader = [''510 result=-1 (Invalid command)''], writer = (\<lambda>b. None)\<rparr>"
      "[''FROBNICATE'']" "CHR ''5''" "CHR ''1''" "CHR ''0''" "CHR '' ''"
      "''-1''" "'' (Invalid command)''" "[]" "''Invalid command''" "[]" "''(Invalid command)''" "[]"]
    hyps
  have "Error (Command \<lparr>Variables = Map.empty, reader = [''510 result=-1 (Invalid command)''],
                    writer = (\<lambda>b. None)\<rparr> [''FROBNICATE'']) = Some (Errorf ''Non-200 status code'') \<and>
   Status (Command \<lparr>Variables = Map.empty, reader = [''510 result=-1 (Invalid command)''],
                    writer = (\<lambda>b. None)\<rparr> [''FROBNICATE'']) = 510 \<and>
   ResultString (Command \<lparr>Variables = Map.empty, reader = [''510 result=-1 (Invalid command)''],
                    writer = (\<lambda>b. None)\<rparr> [''FROBNICATE'']) = ''-1'' \<and>
   Result (Command \<lparr>Variables = Map.empty, reader = [''510 result=-1 (Invalid command)''],
                    writer = (\<lambda>b. None)\<rparr> [''FROBNICATE'']) = fst (Atoi ''-1'') \<and>
   Value (Command \<lparr>Variables = Map.empty, reader = [''510 result=-1 (Invalid command)''],
                    writer = (\<lambda>b. None)\<rparr> [''FROBNICATE''])
     = TrimSuffix (TrimPrefix (TrimSpace (tl '' (Invalid command)'')) ''('') '')''"
    by simp
  then show ?thesis
    unfolding atoi val .
qed

subsection \<open>Hangup\<close>

text \<open>
  C3, as the code has it: the error of the response is \<^verbatim>\<open>ErrHangup\<close> exactly when
  the write succeeded and the first line received begins with \<open>HANGUP\<close> (case-sensitive),
  whatever follows on the line; the response is then the zero response with that error, so
  nothing of the line is parsed.  No other line is treated as a hangup.
\<close>

theorem Command_hangup_iff:
  "(Error (Command a cmd) = Some ErrHangup \<longleftrightarrow>
      writer a (Join cmd '' '' @ [CHR 0x0A]) = None \<and>
      (case reader a of [] \<Rightarrow> False | raw # rest \<Rightarrow> HasPrefix raw ''HANGUP'')) \<and>
   (Error (Command a cmd) = Some ErrHangup \<longrightarrow>
      Command a cmd = \<lparr>Error = Some ErrHangup, Status = 0, Result = 0, ResultString = [],
                       Value = []\<rparr>)"
proof (cases "writer a (Join cmd '' '' @ [CHR 0x0A])")
  case (Some err)
  then show ?thesis by (simp add: Command_def zeroResponse_def)
next
  case None
  show ?thesis
  proof (cases "reader a")
    case Nil
    with None show ?thesis by (simp add: Command_def zeroResponse_def checkStatus_def)
  next
    case (Cons raw rest)
    show ?thesis
    proof (cases "HasPrefix raw ''HANGUP''")
      case True
      then have "raw \<noteq> []" by (auto simp: HasPrefix_def)
      with True None Cons show ?thesis
        by (simp add: Command_def zeroResponse_def)
    next
      case False
      show ?thesis
      proof (cases "FindStringSubmatch raw")
        case nomatch: None
        with None Cons False show ?thesis
          by (simp add: Command_def zeroResponse_def checkStatus_def Let_def)
      next
        case (Some pieces)
        with None Cons False show ?thesis
          by (auto simp: Command_def zeroResponse_def checkStatus_def Let_def Wrap_not_hangup
              split: prod.splits)
      qed
    qed
  qed
qed

theorem Command_hangup_iff_witness:
  "Command \<lparr>Variables = Map.empty, reader = [''HANGUP''], writer = (\<lambda>b. None)\<rparr> [''STREAM FILE'', ''beep'']
     = \<lparr>Error = Some ErrHangup, Status = 0, Result = 0, ResultString = [], Value = []\<rparr>"
  using Command_hangup_iff [of "\<lparr>Variables = Map.empty, reader = [''HANGUP''], writer = (\<lambda>b. None)\<rparr>"
      "[''STREAM FILE'', ''beep'']"]
  by (simp add: HasPrefix_def)

text \<open>
  A line with further content after \<open>HANGUP\<close> is a hangup as well.
\<close>

theorem Hangup_on_longer_line:
  "''HANGUP now'' \<noteq> ''HANGUP'' \<and>
   Error (Command \<lparr>Variables = Map.empty, reader = [''HANGUP now''], writer = (\<lambda>b. None)\<rparr>
            [''STREAM FILE'', ''beep'']) = Some ErrHangup"
  by code_simp

text \<open>
  The second copy of \<^verbatim>\<open>Command\<close> has no hangup check: it never yields
  \<^verbatim>\<open>ErrHangup\<close>, and the line \<open>HANGUP\<close> is reported as a line that does not parse.
\<close>

lemma Command2_never_hangup: "Error (Command2 a cmd) \<noteq> Some ErrHangup"
proof (cases "writer a (Join cmd '' '' @ [CHR 0x0A])")
  case (Some err)
  then show ?thesis by (simp add: Command2_def zeroResponse_def)
next
  case None
  show ?thesis
  proof (cases "reader a")
    case Nil
    with None show ?thesis by (simp add: Command2_def zeroResponse_def checkStatus_def)
  next
    case (Cons raw rest)
    with None show ?thesis
      by (cases "FindStringSubmatch raw")
         (auto simp: Command2_def zeroResponse_def checkStatus_def Let_def Wrap_not_hangup
            split: prod.splits)
  qed
qed

lemma Command2_on_HANGUP:
  "Command2 \<lparr>Variables = Map.empty, reader = [''HANGUP''], writer = (\<lambda>b. None)\<rparr> [''ANSWER'']
     = \<lparr>Error = Some (Errorf ''failed to parse result: HANGUP''), Status = 0, Result = 0,
        ResultString = [], Value = []\<rparr>"
  by code_simp

subsection \<open>Lines that do not parse\<close>

text \<open>
  C6, as the code has it: for a first line that is not empty, does not begin with
  \<open>HANGUP\<close> and does not match the pattern, the response carries the error
  \<open>failed to parse result:\<close> followed by the raw line, and its status, result, result
  string and value are the zero values.
\<close>

theorem Command_parse_failure:
  assumes "writer a (Join cmd '' '' @ [CHR 0x0A]) = None"
    and "reader a = raw # rest"
    and "raw \<noteq> []" and "\<not> HasPrefix raw ''HANGUP''" and "FindStringSubmatch raw = None"
  shows "Command a cmd = \<lparr>Error = Some (Errorf (''failed to parse result: '' @ raw)), Status = 0,
                          Result = 0, ResultString = [], Value = []\<rparr>"
  using assms by (simp add: Command_def zeroResponse_def)

theorem Command_parse_failure_witness:
  "Command \<lparr>Variables = Map.empty, reader = [''not a response''], writer = (\<lambda>b. None)\<rparr> [''ANSWER'']
     = \<lparr>Error = Some (Errorf ''failed to parse result: not a response''), Status = 0,
        Result = 0, ResultString = [], Value = []\<rparr>"
  using Command_parse_failure [of "\<lparr>Variables = Map.empty, reader = [''not a response''],
      writer = (\<lambda>b. None)\<rparr>" "[''ANSWER'']" "''not a response''" "[]"]
  by (simp add: HasPrefix_def FindStringSubmatch_def isDigit_def)

text \<open>
  A line that is not the exact text \<open>HANGUP\<close> but begins with it, and does not match
  the pattern, yields \<^verbatim>\<open>ErrHangup\<close> and not the parse error.
\<close>

theorem Unparsable_line_reported_as_hangup:
  "''HANGUP 16'' \<noteq> [] \<and> ''HANGUP 16'' \<noteq> ''HANGUP'' \<and> FindStringSubmatch ''HANGUP 16'' = None \<and>
   Command \<lparr>Variables = Map.empty, reader = [''HANGUP 16''], writer = (\<lambda>b. None)\<rparr> [''ANSWER'']
     = \<lparr>Error = Some ErrHangup, Status = 0, Result = 0, ResultString = [], Value = []\<rparr>"
  by code_simp

subsection \<open>The preamble\<close>

lemma SplitN_two:
  "SplitN s sep (Suc (Suc 0)) =
     (if sep \<in> set s then [takeWhile (\<lambda>c. c \<noteq> sep) s, tl (dropWhile (\<lambda>c. c \<noteq> sep) s)]
      else [s])"
  by (induction s) auto

text \<open>
  C7: the preamble reader takes the lines up to the first empty line or the end of the
  input, whichever comes first.  Each of these lines that contains a colon is cut at its
  first colon into key and value (later colons stay in the value), both trimmed of
  surrounding white space before they are stored; a line without a colon stores nothing.
  The terminating empty line is read and not stored, and no line after it is read.  An
  input that ends before an empty line is no error: the lines read so far make the
  variables of the session.  The session that \<^verbatim>\<open>NewWithEAGI\<close> returns has these
  variables, and its input is what follows the empty line, less what the scanner had read
  ahead; it is empty when the input had no empty line.
\<close>

theorem NewWithEAGI_preamble:
  "scanVariables ls vars =
     (fold spec_storeLine (takeWhile (\<lambda>l. l \<noteq> []) ls) vars,
      drop 1 (dropWhile (\<lambda>l. l \<noteq> []) ls)) \<and>
   Variables (NewWithEAGI ls w ahead) = spec_preamble ls \<and>
   reader (NewWithEAGI ls w ahead) = readAhead ahead (drop 1 (dropWhile (\<lambda>l. l \<noteq> []) ls)) \<and>
   reader (NewWithEAGI ls w (0, 0)) = drop 1 (dropWhile (\<lambda>l. l \<noteq> []) ls) \<and>
   ([] \<notin> set ls \<longrightarrow> reader (NewWithEAGI ls w ahead) = []) \<and>
   writer (NewWithEAGI ls w ahead) = w"
proof -
  have scan: "scanVariables ls vars =
     (fold spec_storeLine (takeWhile (\<lambda>l. l \<noteq> []) ls) vars,
      drop 1 (dropWhile (\<lambda>l. l \<noteq> []) ls))" for vars
  proof (induction ls arbitrary: vars)
    case Nil
    show ?case by simp
  next
    case (Cons l ls)
    show ?case
    proof (cases "l = []")
      case True
      then show ?thesis by simp
    next
      case False
      then have "scanVariables (l # ls) vars = scanVariables ls (spec_storeLine l vars)"
        by (cases "CHR '':'' \<in> set l")
           (simp_all add: numeral_2_eq_2 SplitN_two spec_storeLine_def Let_def)
      with False show ?thesis
        by (simp add: Cons.IH)
    qed
  qed
  have v: "Variables (NewWithEAGI ls w ahead) = spec_preamble ls"
    by (simp add: scan NewWithEAGI_def spec_preamble_def)
  have r: "reader (NewWithEAGI ls w ahead) =
             readAhead ahead (drop 1 (dropWhile (\<lambda>l. l \<noteq> []) ls))" for ahead
    by (simp add: scan NewWithEAGI_def)
  have r0: "readAhead (0, 0) unread = unread" for unread
    by (cases unread) (simp_all add: readAhead_def)
  have e: "readAhead ahead (drop 1 (dropWhile (\<lambda>l. l \<noteq> []) ls)) = []" if "[] \<notin> set ls"
  proof -
    from that have dw: "dropWhile (\<lambda>l. l \<noteq> []) ls = []"
      by (auto simp: dropWhile_eq_Nil_conv)
    show ?thesis unfolding dw by (simp add: readAhead_def)
  qed
  have wr: "writer (NewWithEAGI ls w ahead) = w"
    by (simp add: NewWithEAGI_def split: prod.splits)
  show ?thesis
    using scan[of vars] v r[of ahead] r[of "(0, 0)"] r0 e wr by simp
qed

theorem NewWithEAGI_preamble_witness:
  "Variables (NewWithEAGI [''agi_request: foo.agi'', ''agi_channel : SIP/1:5060 '', ''no colon'',
                           [], ''200 result=0''] (\<lambda>b. None) (0, 0)) ''agi_channel''
     = Some ''SIP/1:5060'' \<and>
   spec_preamble [''agi_request: foo.agi'', ''agi_channel : SIP/1:5060 '', ''no colon'',
                  [], ''200 result=0''] ''agi_channel'' = Some ''SIP/1:5060'' \<and>
   reader (NewWithEAGI [''agi_request: foo.agi'', ''agi_channel : SIP/1:5060 '', ''no colon'',
                        [], ''200 result=0''] (\<lambda>b. None) (0, 0)) = [''200 result=0''] \<and>
   reader (NewWithEAGI [''agi_request: foo.agi'', ''agi_channel: SIP/1:5060'']
             (\<lambda>b. None) (0, 0)) = []"
proof -
  have model: "Variables (NewWithEAGI [''agi_request: foo.agi'', ''agi_channel : SIP/1:5060 '',
      ''no colon'', [], ''200 result=0''] (\<lambda>b. None) (0, 0)) ''agi_channel''
        = Some ''SIP/1:5060''"
    by code_simp
  have left: "reader (NewWithEAGI [''agi_request: foo.agi'', ''agi_channel : SIP/1:5060 '',
      ''no colon'', [], ''200 result=0''] (\<lambda>b. None) (0, 0)) = [''200 result=0'']"
    by code_simp
  note A = NewWithEAGI_preamble [of "[''agi_request: foo.agi'',
      ''agi_channel : SIP/1:5060 '', ''no colon'', [], ''200 result=0'']" Map.empty
      "\<lambda>b. None" "(0, 0)"]
  from A have "Variables (NewWithEAGI [''agi_request: foo.agi'', ''agi_channel : SIP/1:5060 '',
      ''no colon'', [], ''200 result=0''] (\<lambda>b. None) (0, 0)) =
    spec_preamble [''agi_request: foo.agi'', ''agi_channel : SIP/1:5060 '', ''no colon'',
      [], ''200 result=0'']"
    by (elim conjE)
  with model have spec: "spec_preamble [''agi_request: foo.agi'', ''agi_channel : SIP/1:5060 '',
      ''no colon'', [], ''200 result=0''] ''agi_channel'' = Some ''SIP/1:5060''"
    by simp
  from NewWithEAGI_preamble [of "[''agi_request: foo.agi'',
      ''agi_channel: SIP/1:5060'']" Map.empty "\<lambda>b. None" "(0, 0)"]
  have "[] \<notin> set [''agi_request: foo.agi'', ''agi_channel: SIP/1:5060''] \<longrightarrow>
    reader (NewWithEAGI [''agi_request: foo.agi'', ''agi_channel: SIP/1:5060'']
      (\<lambda>b. None) (0, 0)) = []"
    by (elim conjE)
  then have "reader (NewWithEAGI [''agi_request: foo.agi'', ''agi_channel: SIP/1:5060'']
      (\<lambda>b. None) (0, 0)) = []"
    by simp
  with model spec left show ?thesis by simp
qed

text \<open>
  A command on the new session meets the line that follows the preamble when the scanner
  of \<^verbatim>\<open>NewWithEAGI\<close> read nothing ahead, and no line at all when that line was read
  ahead.
\<close>

lemma Command_after_NewWithEAGI:
  "Command (NewWithEAGI [''agi_request: foo.agi'', [], ''200 result=0''] (\<lambda>b. None) (0, 0))
           [''ANSWER'']
     = \<lparr>Error = None, Status = 200, Result = 0, ResultString = ''0'', Value = []\<rparr> \<and>
   Command (NewWithEAGI [''agi_request: foo.agi'', [], ''200 result=0''] (\<lambda>b. None) (1, 0))
           [''ANSWER'']
     = \<lparr>Error = Some (Errorf ''Non-200 status code''), Status = 0, Result = 0,
        ResultString = [], Value = []\<rparr>"
  by code_simp

text \<open>
  The loop of the second copy of \<^verbatim>\<open>agi.go\<close> differs: it stores a line only when it
  has exactly one colon, so a value that contains a colon is lost.
\<close>

lemma scanVariables2_loses_colon_values:
  "fst (scanVariables2 [''agi_request: foo.agi'', ''agi_channel: SIP/1:5060'', []] Map.empty)
     ''agi_channel'' = None \<and>
   fst (scanVariables [''agi_request: foo.agi'', ''agi_channel: SIP/1:5060'', []] Map.empty)
     ''agi_channel'' = Some ''SIP/1:5060''"
  by code_simp

subsection \<open>The listener\<close>

lemma acceptLoop_not_nil:
  assumes "acceptLoop l = Some res"
  shows "res \<noteq> None"
proof (rule acceptLoop.raw_induct[where P = "\<lambda>l res. res \<noteq> None", OF _ assms])
  fix loop :: "('a \<times> error) stream \<Rightarrow> error option" and l res
  assume IH: "\<And>l res. loop l = Some res \<Longrightarrow> res \<noteq> None"
    and step: "(let (conn, err) = shd l
                in if err \<noteq> None then Some (Wrap err ''failed to accept TCP connection'')
                   else loop (stl l)) = Some res"
  show "res \<noteq> None"
  proof (cases "snd (shd l)")
    case None
    with step have "loop (stl l) = Some res" by (cases "shd l") simp
    then show ?thesis by (rule IH)
  next
    case (Some e)
    with step show ?thesis by (cases "shd l") auto
  qed
qed

lemma acceptLoop_first_failure:
  assumes "snd (l !! n) = Some e" and "\<forall>i<n. snd (l !! i) = None"
  shows "acceptLoop l = Some (Some (Wrapped e ''failed to accept TCP connection''))"
  using assms
proof (induction n arbitrary: l)
  case 0
  then show ?case
    by (subst acceptLoop.simps) (cases "shd l"; simp)
next
  case (Suc n)
  from Suc.prems(2) have hd: "snd (shd l) = None" by (metis snth.simps(1) zero_less_Suc)
  from Suc.prems have "acceptLoop (stl l) = Some (Some (Wrapped e ''failed to accept TCP connection''))"
    by (intro Suc.IH) auto
  with hd show ?case
    by (subst acceptLoop.simps) (cases "shd l"; simp)
qed

lemma acceptLoop_returns_failure:
  assumes "acceptLoop l = Some res"
  shows "\<exists>i. snd (l !! i) \<noteq> None"
proof (rule acceptLoop.raw_induct[where P = "\<lambda>l res. \<exists>i. snd (l !! i) \<noteq> None", OF _ assms])
  fix loop :: "('a \<times> error) stream \<Rightarrow> error option" and l res
  assume IH: "\<And>l res. loop l = Some res \<Longrightarrow> \<exists>i. snd (l !! i) \<noteq> None"
    and step: "(let (conn, err) = shd l
                in if err \<noteq> None then Some (Wrap err ''failed to accept TCP connection'')
                   else loop (stl l)) = Some res"
  show "\<exists>i. snd (l !! i) \<noteq> None"
  proof (cases "snd (shd l)")
    case None
    with step have "loop (stl l) = Some res" by (cases "shd l") simp
    then obtain i where "snd (stl l !! i) \<noteq> None" using IH by blast
    then have "snd (l !! Suc i) \<noteq> None" by simp
    then show ?thesis by blast
  next
    case (Some e)
    then have "snd (l !! 0) \<noteq> None" by simp
    then show ?thesis by blast
  qed
qed

lemma acceptLoop_no_failure:
  "\<forall>i. snd (l !! i) = None \<Longrightarrow> acceptLoop l = None"
  using acceptLoop_returns_failure[of l] by (cases "acceptLoop l") auto

text \<open>
  C9: \<open>Listen\<close> with an empty address binds to \<open>localhost:4573\<close>.  A failure to bind
  is returned to the caller, wrapped as \<open>failed to bind server\<close>, after the one attempt.
  The first failure of \<^verbatim>\<open>Accept\<close> ends the loop and is returned, wrapped as
  \<open>failed to accept TCP connection\<close>.  As long as every \<^verbatim>\<open>Accept\<close> succeeds
  \<open>Listen\<close> does not return, and it never returns \<^verbatim>\<open>nil\<close>.
\<close>

theorem Listen_returns:
  fixes netListen :: "string \<Rightarrow> string \<Rightarrow> ('c \<times> error) stream \<times> error"
  shows "Listen [] netListen = Listen ''localhost:4573'' netListen \<and>
    (addr \<noteq> [] \<and> snd (netListen ''tcp'' addr) = Some e \<longrightarrow>
       Listen addr netListen = Some (Some (Wrapped e ''failed to bind server''))) \<and>
    (addr \<noteq> [] \<and> snd (netListen ''tcp'' addr) = None \<and>
     snd (fst (netListen ''tcp'' addr) !! n) = Some e \<and>
     (\<forall>i<n. snd (fst (netListen ''tcp'' addr) !! i) = None) \<longrightarrow>
       Listen addr netListen = Some (Some (Wrapped e ''failed to accept TCP connection''))) \<and>
    (addr \<noteq> [] \<and> snd (netListen ''tcp'' addr) = None \<and>
     (\<forall>i. snd (fst (netListen ''tcp'' addr) !! i) = None) \<longrightarrow>
       Listen addr netListen = None) \<and>
    Listen addr netListen \<noteq> Some None"
proof -
  define bound where "bound = (if addr = [] then ''localhost:4573'' else addr)"
  obtain l err where nl: "netListen ''tcp'' bound = (l, err)"
    by (cases "netListen ''tcp'' bound")
  have L: "Listen addr netListen =
             (if err \<noteq> None then Some (Wrap err ''failed to bind server'') else acceptLoop l)"
    using nl by (simp add: Listen_def bound_def)
  have 1: "Listen [] netListen = Listen ''localhost:4573'' netListen"
    by (simp add: Listen_def)
  have 2: "Listen addr netListen \<noteq> Some None"
    unfolding L using acceptLoop_not_nil[of l None] by (cases err) auto
  show ?thesis
    using 1 2 nl L acceptLoop_first_failure[of l n e] acceptLoop_no_failure[of l]
    by (auto simp: bound_def)
qed

theorem Listen_returns_witness:
  "Listen [] (\<lambda>network address.
       (((), None) ## sconst ((), Some (IOError ''use of closed network connection'')),
        if address = ''localhost:4573'' then None else Some (IOError ''address in use'')))
     = Some (Some (Wrapped (IOError ''use of closed network connection'')
                           ''failed to accept TCP connection''))"
  using Listen_returns [of "(\<lambda>network address.
       (((), None) ## sconst ((), Some (IOError ''use of closed network connection'')),
        if address = ''localhost:4573'' then None else Some (IOError ''address in use'')))"
       "''localhost:4573''" "IOError ''use of closed network connection''" 1]
  by auto

end
